theory Spec2Isabelle
  imports Complex_Main "HOL-Library.Multiset" "HOL-Library.Sublist"
begin

section \<open>Data model of the xlsx size audit\<close>

text \<open>
  The embedded program is the standalone script held in \<open>SCRIPT_SOURCE\<close> of
  \<open>py_xlsx_low_level_audit.py\<close>: \<open>count_shared_strings\<close>, \<open>scan_xlsx\<close> and
  \<open>suggest_actions\<close>. Python \<open>bytes\<close> and \<open>str\<close> are character lists, the
  sizes read from the ZIP central directory are natural numbers, every exception
  is a value of \<open>error\<close>.
\<close>

type_synonym bytes = string

datatype error =
    FileNotFoundError string
  | KeyError string
  | ZeroDivisionError
  | BadZipFile
  | OSError string

text \<open>
  Python floats are not modelled bit by bit. The float operations that the script
  uses are the fields of a record, over an arbitrary carrier \<open>'f\<close>:
  \<open>truediv\<close> is \<open>int / int\<close>, \<open>of_int_f\<close> the conversion of an integer operand,
  \<open>fround2\<close> is \<open>round(x, 2)\<close> and \<open>fzero\<close> the literal \<open>0.0\<close>.
\<close>

record 'f float_ops =
  truediv :: "nat \<Rightarrow> nat \<Rightarrow> 'f"
  of_int_f :: "int \<Rightarrow> 'f"
  fsub :: "'f \<Rightarrow> 'f \<Rightarrow> 'f"
  fmul :: "'f \<Rightarrow> 'f \<Rightarrow> 'f"
  fround2 :: "'f \<Rightarrow> 'f"
  fzero :: "'f"

text \<open>One entry of \<open>zf.infolist()\<close>.\<close>

record zipinfo =
  filename :: string
  compress_size :: nat
  file_size :: nat

text \<open>
  An opened archive: its member index, and what \<open>zf.open(name)\<close> gives. Opening
  either raises or gives a stream; a stream is the list of the outcomes of the
  successive \<open>f.read(65536)\<close> calls, each a raised error or a chunk. Past the
  end of the list a read returns the empty chunk.
\<close>

record zipfile =
  zf_infolist :: "zipinfo list"
  zf_open :: "string \<Rightarrow> error + (error + bytes) list"

text \<open>The two calls into the environment: \<open>os.path.exists\<close> and \<open>zipfile.ZipFile\<close>.\<close>

record env =
  path_exists :: "string \<Rightarrow> bool"
  zip_open :: "string \<Rightarrow> error + zipfile"

text \<open>A row of the report; the key \<open>compression_savings_%\<close> is \<open>compression_savings_pct\<close>.\<close>

record 'f row =
  path :: string
  uncompressed_bytes :: nat
  compressed_bytes :: nat
  compression_savings_pct :: 'f

record 'f summary =
  total_uncompressed :: nat
  total_compressed :: nat
  overall_compression_savings_pct :: 'f
  media_count :: nat
  media_uncompressed_total :: nat
  worksheets_uncompressed_total :: nat
  sharedStrings_uncompressed :: "nat option"
  sharedStrings_est_count :: "nat option"

text \<open>The local variables of \<open>scan_xlsx\<close> that its loop updates.\<close>

record 'f scan_vars =
  v_rows :: "'f row list"
  v_total_uncompressed :: nat
  v_total_compressed :: nat
  v_media_total :: nat
  v_media_count :: nat
  v_worksheets_total :: nat
  v_sharedstrings_size :: "nat option"

text \<open>
  The five suggestion texts. The script's strings are Polish prose; only the
  largest-item text has a variable part, the path interpolated into it.
  \<^item> \<open>MediaTip\<close>: "Folder xl/media/ jest duzy ..."
  \<^item> \<open>SharedStringsTip\<close>: "Plik xl/sharedStrings.xml jest bardzo duzy ..."
  \<^item> \<open>WorksheetsTip\<close>: "Duze arkusze w xl/worksheets/ ..."
  \<^item> \<open>LargestItemTip worst\<close>: "Najwiekszy element: {worst} ..."
  \<^item> \<open>FallbackTip\<close>: "Nie widac jednego, oczywistego winowajcy ..."
\<close>

datatype tip =
    MediaTip
  | SharedStringsTip
  | WorksheetsTip
  | LargestItemTip string
  | FallbackTip

section \<open>count_shared_strings\<close>

text \<open>
  \<open>buf.count(sub)\<close>: the number of non-overlapping occurrences of \<open>sub\<close> in
  \<open>buf\<close>, scanning from the left; for the empty \<open>sub\<close> it is \<open>len(buf) + 1\<close>.
\<close>

fun bytes_count :: "bytes \<Rightarrow> bytes \<Rightarrow> nat" where
  "bytes_count sub [] = (if sub = [] then 1 else 0)"
| "bytes_count sub (b # bs) =
     (if sub = [] then length bs + 2
      else if prefix sub (b # bs) then 1 + bytes_count sub (drop (length sub - 1) bs)
      else bytes_count sub bs)"

text \<open>
  The loop \<open>for chunk in iter(lambda: f.read(65536), b"")\<close>: it ends at the first
  empty chunk, and a read that raises leaves the loop with the error.
\<close>

fun count_loop :: "nat \<Rightarrow> bytes \<Rightarrow> (error + bytes) list \<Rightarrow> error + nat" where
  "count_loop cnt buf [] = Inr cnt"
| "count_loop cnt buf (Inl e # reads) = Inl e"
| "count_loop cnt buf (Inr chunk # reads) =
     (if chunk = [] then Inr cnt
      else let buf = buf @ chunk;
               cnt = cnt + bytes_count ''<si'' buf
           in count_loop cnt (drop (length buf - 3) buf) reads)"

text \<open>Both handlers, \<open>except KeyError\<close> and \<open>except Exception\<close>, return \<open>None\<close>.\<close>

definition count_shared_strings :: "zipfile \<Rightarrow> string \<Rightarrow> nat option" where
  "count_shared_strings zf p =
     (case zf_open zf p of
        Inl e \<Rightarrow> None
      | Inr reads \<Rightarrow>
          (case count_loop 0 [] reads of
             Inl e \<Rightarrow> None
           | Inr cnt \<Rightarrow> Some cnt))"

text \<open>
  What the successive \<open>f.read(n)\<close> calls return on a stream that holds \<open>data\<close>
  and never fails: \<open>n\<close> bytes each time, fewer at the end.
\<close>

fun read_chunks :: "nat \<Rightarrow> bytes \<Rightarrow> bytes list" where
  "read_chunks n [] = []"
| "read_chunks n (b # bs) =
     (if n = 0 then [] else take n (b # bs) # read_chunks n (drop (n - 1) bs))"

section \<open>scan_xlsx\<close>

definition py_truediv :: "'f float_ops \<Rightarrow> nat \<Rightarrow> nat \<Rightarrow> error + 'f" where
  "py_truediv fl a b = (if b = 0 then Inl ZeroDivisionError else Inr (truediv fl a b))"

text \<open>The expression \<open>(1 - (comp / uncomp)) * 100\<close> of lines 91 and 110; \<open>csize\<close> and
  \<open>usize\<close> stand for the script's \<open>comp\<close> and \<open>uncomp\<close>.\<close>

definition savings_expr :: "'f float_ops \<Rightarrow> nat \<Rightarrow> nat \<Rightarrow> error + 'f" where
  "savings_expr fl csize usize =
     (case py_truediv fl csize usize of
        Inl e \<Rightarrow> Inl e
      | Inr q \<Rightarrow> Inr (fmul fl (fsub fl (of_int_f fl 1) q) (of_int_f fl 100)))"

text \<open>The body of \<open>for info in zf.infolist()\<close>.\<close>

definition scan_member :: "'f float_ops \<Rightarrow> zipinfo \<Rightarrow> 'f scan_vars \<Rightarrow> error + 'f scan_vars" where
  "scan_member fl info v =
     (let name = filename info;
          csize = compress_size info;
          usize = file_size info;
          v = v\<lparr>v_total_uncompressed := v_total_uncompressed v + usize\<rparr>;
          v = v\<lparr>v_total_compressed := v_total_compressed v + csize\<rparr>;
          v = (if prefix ''xl/media/'' name
               then v\<lparr>v_media_total := v_media_total v + usize,
                      v_media_count := v_media_count v + 1\<rparr>
               else v);
          v = (if prefix ''xl/worksheets/'' name
               then v\<lparr>v_worksheets_total := v_worksheets_total v + usize\<rparr>
               else v);
          v = (if name = ''xl/sharedStrings.xml''
               then v\<lparr>v_sharedstrings_size := Some usize\<rparr>
               else v)
      in case (if usize > 0 then savings_expr fl csize usize else Inr (fzero fl)) of
           Inl e \<Rightarrow> Inl e
         | Inr ratio \<Rightarrow>
             Inr (v\<lparr>v_rows := v_rows v @
                    [\<lparr>path = name,
                      uncompressed_bytes = usize,
                      compressed_bytes = csize,
                      compression_savings_pct = fround2 fl ratio\<rparr>]\<rparr>))"

fun scan_loop :: "'f float_ops \<Rightarrow> zipinfo list \<Rightarrow> 'f scan_vars \<Rightarrow> error + 'f scan_vars" where
  "scan_loop fl [] v = Inr v"
| "scan_loop fl (info # infos) v =
     (case scan_member fl info v of
        Inl e \<Rightarrow> Inl e
      | Inr v' \<Rightarrow> scan_loop fl infos v')"

text \<open>
  \<open>rows.sort(key=..., reverse=True)\<close>: a stable sort into non-increasing key
  order. The insertion puts an element in front of the first one whose key is
  not greater, so among equal keys the earlier element stays in front.
\<close>

fun insort_reverse :: "('a \<Rightarrow> nat) \<Rightarrow> 'a \<Rightarrow> 'a list \<Rightarrow> 'a list" where
  "insort_reverse key x [] = [x]"
| "insort_reverse key x (y # ys) =
     (if key y \<le> key x then x # y # ys else y # insort_reverse key x ys)"

definition py_sort_reverse :: "('a \<Rightarrow> nat) \<Rightarrow> 'a list \<Rightarrow> 'a list" where
  "py_sort_reverse key xs = foldr (insort_reverse key) xs []"

definition initial_vars :: "'f scan_vars" where
  "initial_vars =
     \<lparr>v_rows = [], v_total_uncompressed = 0, v_total_compressed = 0,
      v_media_total = 0, v_media_count = 0, v_worksheets_total = 0,
      v_sharedstrings_size = None\<rparr>"

definition scan_xlsx ::
  "'f float_ops \<Rightarrow> env \<Rightarrow> string \<Rightarrow> error + ('f row list \<times> 'f summary)" where
  "scan_xlsx fl e p =
     (if \<not> path_exists e p then Inl (FileNotFoundError p)
      else case zip_open e p of
        Inl err \<Rightarrow> Inl err
      | Inr zf \<Rightarrow>
          (case scan_loop fl (zf_infolist zf) initial_vars of
             Inl err \<Rightarrow> Inl err
           | Inr v \<Rightarrow>
               (let sharedstrings_count =
                      (if v_sharedstrings_size v \<noteq> None
                       then count_shared_strings zf ''xl/sharedStrings.xml''
                       else None);
                    rows = py_sort_reverse uncompressed_bytes (v_rows v)
                in case (if v_total_uncompressed v \<noteq> 0
                         then (case savings_expr fl (v_total_compressed v)
                                      (v_total_uncompressed v) of
                                 Inl err \<Rightarrow> Inl err
                               | Inr x \<Rightarrow> Inr (fround2 fl x))
                         else Inr (fzero fl)) of
                     Inl err \<Rightarrow> Inl err
                   | Inr overall \<Rightarrow>
                       Inr (rows,
                            \<lparr>total_uncompressed = v_total_uncompressed v,
                             total_compressed = v_total_compressed v,
                             overall_compression_savings_pct = overall,
                             media_count = v_media_count v,
                             media_uncompressed_total = v_media_total v,
                             worksheets_uncompressed_total = v_worksheets_total v,
                             sharedStrings_uncompressed = v_sharedstrings_size v,
                             sharedStrings_est_count = sharedstrings_count\<rparr>))))"

section \<open>suggest_actions\<close>

text \<open>The conditions of the three threshold rules, as the script tests them.\<close>

definition media_rule :: "'f summary \<Rightarrow> bool" where
  "media_rule s \<longleftrightarrow> media_count s > 0 \<and> media_uncompressed_total s > 10 * 1024 * 1024"

definition shared_strings_rule :: "'f summary \<Rightarrow> bool" where
  "shared_strings_rule s \<longleftrightarrow>
     (case sharedStrings_uncompressed s of
        None \<Rightarrow> False
      | Some ss \<Rightarrow> ss \<noteq> 0 \<and> ss > 10 * 1024 * 1024)"

definition worksheets_rule :: "'f summary \<Rightarrow> bool" where
  "worksheets_rule s \<longleftrightarrow> worksheets_uncompressed_total s > 20 * 1024 * 1024"

definition suggest_actions :: "'f summary \<Rightarrow> 'f row list \<Rightarrow> tip list" where
  "suggest_actions s top_paths =
     (let tips = [];
          tips = (if media_rule s then tips @ [MediaTip] else tips);
          tips = (if shared_strings_rule s then tips @ [SharedStringsTip] else tips);
          tips = (if worksheets_rule s then tips @ [WorksheetsTip] else tips);
          tips = (case top_paths of
                    [] \<Rightarrow> tips
                  | worst # rest \<Rightarrow> tips @ [LargestItemTip (path worst)]);
          tips = (if tips = [] then tips @ [FallbackTip] else tips)
      in tips)"

section \<open>Notions used to state the properties, and example inputs\<close>

text \<open>
  An idealised instance of the float operations, exact on the reals, used to
  run the model on examples; \<open>round(x, 2)\<close> rounds to the nearest hundredth.
\<close>

definition exact_ops :: "real float_ops" where
  "exact_ops =
     \<lparr>truediv = (\<lambda>a b. of_nat a / of_nat b), of_int_f = of_int,
      fsub = (-), fmul = (*),
      fround2 = (\<lambda>x. of_int (round (x * 100)) / 100), fzero = 0\<rparr>"

text \<open>A summary on which no threshold rule fires, and one on which all three do.\<close>

definition quiet_summary :: "real summary" where
  "quiet_summary =
     \<lparr>total_uncompressed = 2048, total_compressed = 1024,
      overall_compression_savings_pct = 50, media_count = 0,
      media_uncompressed_total = 0, worksheets_uncompressed_total = 2048,
      sharedStrings_uncompressed = None, sharedStrings_est_count = None\<rparr>"

definition heavy_summary :: "real summary" where
  "heavy_summary =
     \<lparr>total_uncompressed = 60000000, total_compressed = 30000000,
      overall_compression_savings_pct = 50, media_count = 1,
      media_uncompressed_total = 11534336, worksheets_uncompressed_total = 24000000,
      sharedStrings_uncompressed = Some 12000000, sharedStrings_est_count = Some 2\<rparr>"

definition sheet_row :: "real row" where
  "sheet_row =
     \<lparr>path = ''xl/worksheets/sheet1.xml'', uncompressed_bytes = 2048,
      compressed_bytes = 1024, compression_savings_pct = 50\<rparr>"

text \<open>
  The formula \<open>(1 - compressed/uncompressed) * 100\<close> of the specification, as a
  value: it is only meant for a non-zero \<open>u\<close>.
\<close>

definition savings_formula :: "'f float_ops \<Rightarrow> nat \<Rightarrow> nat \<Rightarrow> 'f" where
  "savings_formula fl c u =
     fmul fl (fsub fl (of_int_f fl 1) (truediv fl c u)) (of_int_f fl 100)"

text \<open>The row that the scan reports for one member of the index.\<close>

definition row_of :: "'f float_ops \<Rightarrow> zipinfo \<Rightarrow> 'f row" where
  "row_of fl info =
     \<lparr>path = filename info,
      uncompressed_bytes = file_size info,
      compressed_bytes = compress_size info,
      compression_savings_pct =
        fround2 fl (if file_size info = 0 then fzero fl
                    else savings_formula fl (compress_size info) (file_size info))\<rparr>"

text \<open>
  An example workbook: an image, a sheet and the shared strings of the same size
  as the sheet, and an empty member. The shared strings hold two entries.
\<close>

definition demo_zip :: zipfile where
  "demo_zip =
     \<lparr>zf_infolist =
        [\<lparr>filename = ''xl/worksheets/sheet1.xml'', compress_size = 30, file_size = 45\<rparr>,
         \<lparr>filename = ''docProps/empty.bin'', compress_size = 0, file_size = 0\<rparr>,
         \<lparr>filename = ''xl/media/img1.png'', compress_size = 10485760, file_size = 11534336\<rparr>,
         \<lparr>filename = ''xl/sharedStrings.xml'', compress_size = 15, file_size = 45\<rparr>],
      zf_open =
        (\<lambda>n. if n = ''xl/sharedStrings.xml''
             then Inr (map Inr
                    (read_chunks 65536 ''<sst><si><t>a</t></si><si><t>b</t></si></sst>''))
             else Inl (KeyError n))\<rparr>"

definition demo_env :: env where
  "demo_env =
     \<lparr>path_exists = (\<lambda>p. p = ''book.xlsx''),
      zip_open = (\<lambda>p. if p = ''book.xlsx'' then Inr demo_zip else Inl BadZipFile)\<rparr>"

definition demo_rows :: "real row list" where
  "demo_rows =
     [\<lparr>path = ''xl/media/img1.png'', uncompressed_bytes = 11534336,
       compressed_bytes = 10485760, compression_savings_pct = 909 / 100\<rparr>,
      \<lparr>path = ''xl/worksheets/sheet1.xml'', uncompressed_bytes = 45,
       compressed_bytes = 30, compression_savings_pct = 3333 / 100\<rparr>,
      \<lparr>path = ''xl/sharedStrings.xml'', uncompressed_bytes = 45,
       compressed_bytes = 15, compression_savings_pct = 6667 / 100\<rparr>,
      \<lparr>path = ''docProps/empty.bin'', uncompressed_bytes = 0,
       compressed_bytes = 0, compression_savings_pct = 0\<rparr>]"

definition demo_summary :: "real summary" where
  "demo_summary =
     \<lparr>total_uncompressed = 11534426, total_compressed = 10485805,
      overall_compression_savings_pct = 909 / 100, media_count = 1,
      media_uncompressed_total = 11534336, worksheets_uncompressed_total = 45,
      sharedStrings_uncompressed = Some 45, sharedStrings_est_count = Some 2\<rparr>"

text \<open>
  A read of the stream raises before its end is reached: the loop of
  \<open>count_shared_strings\<close> stops at the first empty chunk, so only an error in
  front of it is met.
\<close>

fun read_fails :: "(error + bytes) list \<Rightarrow> bool" where
  "read_fails [] = False"
| "read_fails (Inl e # reads) = True"
| "read_fails (Inr chunk # reads) = (chunk \<noteq> [] \<and> read_fails reads)"

text \<open>Streaming a member fails: it cannot be opened, or a read raises.\<close>

definition stream_fails :: "error + (error + bytes) list \<Rightarrow> bool" where
  "stream_fails opened = (case opened of Inl e \<Rightarrow> True | Inr reads \<Rightarrow> read_fails reads)"

text \<open>
  The example workbook with a shared-strings stream that breaks after its first
  chunk, and the example workbook without its shared strings.
\<close>

definition broken_zip :: zipfile where
  "broken_zip =
     demo_zip\<lparr>zf_open :=
        (\<lambda>n. if n = ''xl/sharedStrings.xml''
             then Inr [Inr ''<sst><si><t>a</t></si>'', Inl (OSError ''Bad CRC-32'')]
             else Inl (KeyError n))\<rparr>"

definition plain_zip :: zipfile where
  "plain_zip =
     \<lparr>zf_infolist =
        [\<lparr>filename = ''xl/worksheets/sheet1.xml'', compress_size = 30, file_size = 45\<rparr>,
         \<lparr>filename = ''xl/media/img1.png'', compress_size = 10485760, file_size = 11534336\<rparr>],
      zf_open = (\<lambda>n. Inl (KeyError n))\<rparr>"

definition shelf_env :: env where
  "shelf_env =
     \<lparr>path_exists = (\<lambda>p. p \<in> {''broken.xlsx'', ''plain.xlsx''}),
      zip_open =
        (\<lambda>p. if p = ''broken.xlsx'' then Inr broken_zip
             else if p = ''plain.xlsx'' then Inr plain_zip
             else Inl BadZipFile)\<rparr>"

text \<open>An archive with no member, and an environment that holds it.\<close>

definition empty_zip :: zipfile where
  "empty_zip = \<lparr>zf_infolist = [], zf_open = (\<lambda>n. Inl (KeyError n))\<rparr>"

definition empty_env :: env where
  "empty_env =
     \<lparr>path_exists = (\<lambda>p. p = ''empty.xlsx''),
      zip_open = (\<lambda>p. if p = ''empty.xlsx'' then Inr empty_zip else Inl BadZipFile)\<rparr>"

text \<open>
  The fixture of the specification, a stream that delivers \<open>d\<close> in two chunks cut
  at offset \<open>k\<close>, and a shared-strings part whose only marker ends exactly at the
  first 64 KiB boundary.
\<close>

definition fixture :: bytes where
  "fixture = ''<si><si/><si''"

definition split_at :: "nat \<Rightarrow> bytes \<Rightarrow> (error + bytes) list" where
  "split_at k d = [Inr (take k d), Inr (drop k d)]"

definition aligned_data :: bytes where
  "aligned_data = replicate 65533 (CHR '' '') @ ''<si>''"

definition aligned_zip :: zipfile where
  "aligned_zip =
     \<lparr>zf_infolist =
        [\<lparr>filename = ''xl/sharedStrings.xml'', compress_size = 100, file_size = 65537\<rparr>],
      zf_open =
        (\<lambda>n. if n = ''xl/sharedStrings.xml''
             then Inr (map Inr (read_chunks 65536 aligned_data))
             else Inl (KeyError n))\<rparr>"

section \<open>The advisor\<close>

text \<open>The appends of \<open>suggest_actions\<close>, read as one concatenation.\<close>

lemma suggest_actions_cases:
  "suggest_actions s t =
     (let tips = (if media_rule s then [MediaTip] else []) @
                 (if shared_strings_rule s then [SharedStringsTip] else []) @
                 (if worksheets_rule s then [WorksheetsTip] else []) @
                 (case t of [] \<Rightarrow> [] | worst # rest \<Rightarrow> [LargestItemTip (path worst)])
      in if tips = [] then [FallbackTip] else tips)"
  by (simp add: suggest_actions_def Let_def split: list.split)

text \<open>
  C1, as the specification states it: the generic fallback is in the output exactly
  when none of the rules 1 to 3 fired, whatever rule 4 did. It fails on a summary
  below every threshold together with one top row: no rule of 1 to 3 fires, and
  the fallback is not in the output.
\<close>

theorem fallback_counterexample:
  "\<not> (FallbackTip \<in> set (suggest_actions quiet_summary [sheet_row]) \<longleftrightarrow>
      \<not> media_rule quiet_summary \<and> \<not> shared_strings_rule quiet_summary \<and>
      \<not> worksheets_rule quiet_summary)"
  by (simp add: suggest_actions_def quiet_summary_def sheet_row_def media_rule_def
      shared_strings_rule_def worksheets_rule_def)

text \<open>
  C1, amended: the generic fallback is in the output exactly when none of the rules
  1 to 4 produced a suggestion, that is when no threshold rule fired and the top
  rows are empty; when the top rows are not empty and no threshold rule fires, the
  output is the largest-item suggestion alone.
\<close>

theorem fallback_iff_no_tip:
  "(FallbackTip \<in> set (suggest_actions s t) \<longleftrightarrow>
      \<not> media_rule s \<and> \<not> shared_strings_rule s \<and> \<not> worksheets_rule s \<and> t = []) \<and>
   (t \<noteq> [] \<and> \<not> media_rule s \<and> \<not> shared_strings_rule s \<and> \<not> worksheets_rule s \<longrightarrow>
      suggest_actions s t = [LargestItemTip (path (hd t))])"
  by (cases t) (simp_all add: suggest_actions_cases)

theorem fallback_iff_no_tip_witness:
  "(FallbackTip \<in> set (suggest_actions quiet_summary []) \<and>
    FallbackTip \<notin> set (suggest_actions quiet_summary [sheet_row])) \<and>
   suggest_actions quiet_summary [sheet_row] = [LargestItemTip ''xl/worksheets/sheet1.xml'']"
  using fallback_iff_no_tip [of quiet_summary "[]"]
    fallback_iff_no_tip [of quiet_summary "[sheet_row]"]
  by (simp add: quiet_summary_def sheet_row_def media_rule_def
      shared_strings_rule_def worksheets_rule_def)

text \<open>
  C8: whenever the top rows are not empty, the output holds the largest-item
  suggestion naming the path of the first top row, whether or not a threshold rule
  fired.
\<close>

theorem largest_item_always:
  "top_paths \<noteq> [] \<Longrightarrow>
   LargestItemTip (path (hd top_paths)) \<in> set (suggest_actions s top_paths)"
  by (cases top_paths) (simp_all add: suggest_actions_cases)

theorem largest_item_always_witness:
  "[sheet_row] \<noteq> [] \<and>
   LargestItemTip ''xl/worksheets/sheet1.xml'' \<in> set (suggest_actions heavy_summary [sheet_row])"
  using largest_item_always [of "[sheet_row]" heavy_summary]
  by (simp add: sheet_row_def)

text \<open>
  C9: the output has at least one and at most four suggestions, and the generic
  fallback only ever appears as the single element of the output.
\<close>

theorem suggest_actions_size:
  "1 \<le> length (suggest_actions s t) \<and> length (suggest_actions s t) \<le> 4 \<and>
   (FallbackTip \<in> set (suggest_actions s t) \<longrightarrow> suggest_actions s t = [FallbackTip])"
  by (cases t) (simp_all add: suggest_actions_cases)

theorem suggest_actions_size_witness:
  "FallbackTip \<in> set (suggest_actions quiet_summary []) \<and>
   suggest_actions quiet_summary [] = [FallbackTip] \<and>
   length (suggest_actions heavy_summary [sheet_row]) = 4"
  using suggest_actions_size [of quiet_summary "[]"]
    suggest_actions_size [of heavy_summary "[sheet_row]"]
  by (simp add: suggest_actions_def quiet_summary_def heavy_summary_def media_rule_def
      shared_strings_rule_def worksheets_rule_def)

section \<open>The stable reverse sort\<close>

lemma mset_insort_reverse: "mset (insort_reverse key x xs) = add_mset x (mset xs)"
  by (induction xs) simp_all

lemma mset_py_sort_reverse: "mset (py_sort_reverse key xs) = mset xs"
  by (induction xs) (simp_all add: py_sort_reverse_def mset_insort_reverse)

lemma length_py_sort_reverse: "length (py_sort_reverse key xs) = length xs"
  using mset_py_sort_reverse [of key xs] by (metis size_mset)

lemma set_insort_reverse: "set (insort_reverse key x xs) = insert x (set xs)"
  by (induction xs) auto

lemma set_py_sort_reverse: "set (py_sort_reverse key xs) = set xs"
  using mset_py_sort_reverse [of key xs] by (metis set_mset_mset)

lemma sorted_insort_reverse:
  "sorted_wrt (\<lambda>a b. key b \<le> key a) xs \<Longrightarrow>
   sorted_wrt (\<lambda>a b. key b \<le> key a) (insort_reverse key x xs)"
  by (induction xs) (auto simp: set_insort_reverse)

lemma sorted_py_sort_reverse: "sorted_wrt (\<lambda>a b. key b \<le> key a) (py_sort_reverse key xs)"
  by (induction xs) (simp_all add: py_sort_reverse_def sorted_insort_reverse)

lemma filter_insort_reverse_other:
  "key x \<noteq> k \<Longrightarrow>
   filter (\<lambda>y. key y = k) (insort_reverse key x xs) = filter (\<lambda>y. key y = k) xs"
  by (induction xs) simp_all

text \<open>In a sorted list the new element lands in front of the ones with its key.\<close>

lemma filter_insort_reverse_same:
  "sorted_wrt (\<lambda>a b. key b \<le> key a) xs \<Longrightarrow>
   filter (\<lambda>y. key y = key x) (insort_reverse key x xs) = x # filter (\<lambda>y. key y = key x) xs"
proof (induction xs)
  case Nil
  show ?case by simp
next
  case (Cons y ys)
  show ?case
  proof (cases "key y \<le> key x")
    case True
    then show ?thesis by simp
  next
    case False
    with Cons show ?thesis by simp
  qed
qed

lemma py_sort_reverse_stable:
  "filter (\<lambda>y. key y = k) (py_sort_reverse key xs) = filter (\<lambda>y. key y = k) xs"
proof (induction xs)
  case Nil
  show ?case by (simp add: py_sort_reverse_def)
next
  case (Cons x xs)
  have step: "py_sort_reverse key (x # xs) = insort_reverse key x (py_sort_reverse key xs)"
    by (simp add: py_sort_reverse_def)
  show ?case
  proof (cases "key x = k")
    case True
    with Cons show ?thesis
      using filter_insort_reverse_same [OF sorted_py_sort_reverse, of key x xs]
      by (simp add: step)
  next
    case False
    with Cons show ?thesis by (simp add: step filter_insort_reverse_other)
  qed
qed

lemma sum_list_py_sort_reverse:
  "sum_list (map f (py_sort_reverse key xs)) = sum_list (map (f::'a \<Rightarrow> nat) xs)"
proof -
  have "mset (map f (py_sort_reverse key xs)) = mset (map f xs)"
    by (simp add: mset_py_sort_reverse)
  then show ?thesis by (metis sum_mset_sum_list)
qed

section \<open>The scan loop\<close>

lemma savings_expr_pos:
  "0 < u \<Longrightarrow> savings_expr fl c u = Inr (savings_formula fl c u)"
  by (simp add: savings_expr_def py_truediv_def savings_formula_def)

text \<open>The loop body never raises: the division is only reached with a non-zero size.\<close>

lemma scan_member_eq:
  "scan_member fl info v =
     Inr (v\<lparr>v_rows := v_rows v @ [row_of fl info],
            v_total_uncompressed := v_total_uncompressed v + file_size info,
            v_total_compressed := v_total_compressed v + compress_size info,
            v_media_total := v_media_total v +
              (if prefix ''xl/media/'' (filename info) then file_size info else 0),
            v_media_count := v_media_count v +
              (if prefix ''xl/media/'' (filename info) then 1 else 0),
            v_worksheets_total := v_worksheets_total v +
              (if prefix ''xl/worksheets/'' (filename info) then file_size info else 0),
            v_sharedstrings_size :=
              (if filename info = ''xl/sharedStrings.xml'' then Some (file_size info)
               else v_sharedstrings_size v)\<rparr>)"
  by (cases "file_size info = 0")
     (simp_all add: scan_member_def Let_def savings_expr_pos row_of_def)

lemma scan_loop_succeeds: "\<exists>v'. scan_loop fl infos v = Inr v'"
  by (induction infos arbitrary: v) (simp_all add: scan_member_eq)

lemma scan_loop_rows:
  "scan_loop fl infos v = Inr v' \<Longrightarrow> v_rows v' = v_rows v @ map (row_of fl) infos"
  by (induction infos arbitrary: v) (auto simp: scan_member_eq)

lemma scan_loop_total_uncompressed:
  "scan_loop fl infos v = Inr v' \<Longrightarrow>
   v_total_uncompressed v' = v_total_uncompressed v + sum_list (map file_size infos)"
  by (induction infos arbitrary: v) (auto simp: scan_member_eq)

lemma scan_loop_total_compressed:
  "scan_loop fl infos v = Inr v' \<Longrightarrow>
   v_total_compressed v' = v_total_compressed v + sum_list (map compress_size infos)"
  by (induction infos arbitrary: v) (auto simp: scan_member_eq)

lemma scan_loop_shared_absent:
  "scan_loop fl infos v = Inr v' \<Longrightarrow>
   \<forall>i\<in>set infos. filename i \<noteq> ''xl/sharedStrings.xml'' \<Longrightarrow>
   v_sharedstrings_size v' = v_sharedstrings_size v"
  by (induction infos arbitrary: v) (auto simp: scan_member_eq)

text \<open>What \<open>scan_xlsx\<close> returns once the path exists and the archive opens.\<close>

lemma scan_xlsx_opened:
  assumes "path_exists e p" and "zip_open e p = Inr zf"
    and "scan_loop fl (zf_infolist zf) initial_vars = Inr v"
  shows "scan_xlsx fl e p =
     Inr (py_sort_reverse uncompressed_bytes (v_rows v),
          \<lparr>total_uncompressed = v_total_uncompressed v,
           total_compressed = v_total_compressed v,
           overall_compression_savings_pct =
             (if v_total_uncompressed v = 0 then fzero fl
              else fround2 fl
                     (savings_formula fl (v_total_compressed v) (v_total_uncompressed v))),
           media_count = v_media_count v,
           media_uncompressed_total = v_media_total v,
           worksheets_uncompressed_total = v_worksheets_total v,
           sharedStrings_uncompressed = v_sharedstrings_size v,
           sharedStrings_est_count =
             (if v_sharedstrings_size v \<noteq> None
              then count_shared_strings zf ''xl/sharedStrings.xml'' else None)\<rparr>)"
  using assms by (simp add: scan_xlsx_def Let_def savings_expr_pos)

lemma scan_xlsx_accepted:
  assumes "scan_xlsx fl e p = Inr (rows, summ)"
  shows "path_exists e p \<and> (\<exists>zf. zip_open e p = Inr zf)"
  using assms by (auto simp: scan_xlsx_def split: if_splits sum.splits)

text \<open>The loop's final variables, for an archive that opens.\<close>

lemma scan_loop_final:
  "\<exists>v. scan_loop fl (zf_infolist zf) initial_vars = Inr v \<and>
       v_rows v = map (row_of fl) (zf_infolist zf) \<and>
       v_total_uncompressed v = sum_list (map file_size (zf_infolist zf)) \<and>
       v_total_compressed v = sum_list (map compress_size (zf_infolist zf))"
proof -
  from scan_loop_succeeds obtain v
    where lp: "scan_loop fl (zf_infolist zf) initial_vars = Inr v" by blast
  have "v_rows v = map (row_of fl) (zf_infolist zf)"
    using scan_loop_rows [OF lp] by (simp add: initial_vars_def)
  moreover have "v_total_uncompressed v = sum_list (map file_size (zf_infolist zf))"
    using scan_loop_total_uncompressed [OF lp] by (simp add: initial_vars_def)
  moreover have "v_total_compressed v = sum_list (map compress_size (zf_infolist zf))"
    using scan_loop_total_compressed [OF lp] by (simp add: initial_vars_def)
  ultimately show ?thesis using lp by blast
qed

lemma row_of_sizes:
  "map uncompressed_bytes (map (row_of fl) infos) = map file_size infos"
  "map compressed_bytes (map (row_of fl) infos) = map compress_size infos"
  by (simp_all add: row_of_def comp_def)

section \<open>The scanner\<close>

text \<open>The scan of the example workbook, evaluated.\<close>

lemma demo_scan: "scan_xlsx exact_ops demo_env ''book.xlsx'' = Inr (demo_rows, demo_summary)"
  by (simp add: scan_xlsx_def demo_env_def demo_zip_def exact_ops_def initial_vars_def
      scan_member_def savings_expr_def py_truediv_def py_sort_reverse_def
      count_shared_strings_def Let_def demo_rows_def demo_summary_def round_def)

text \<open>
  C3: for every archive that the scan accepts, the uncompressed sizes of the
  returned rows add up to the summary's total, and so do the compressed sizes.
\<close>

theorem totals_are_row_sums:
  assumes "scan_xlsx fl e p = Inr (rows, summ)"
  shows "sum_list (map uncompressed_bytes rows) = total_uncompressed summ \<and>
         sum_list (map compressed_bytes rows) = total_compressed summ"
proof -
  from scan_xlsx_accepted [OF assms] obtain zf
    where ex: "path_exists e p" and op: "zip_open e p = Inr zf" by blast
  from scan_loop_final [of fl zf] obtain v
    where lp: "scan_loop fl (zf_infolist zf) initial_vars = Inr v"
      and rows_v: "v_rows v = map (row_of fl) (zf_infolist zf)"
      and tu: "v_total_uncompressed v = sum_list (map file_size (zf_infolist zf))"
      and tc: "v_total_compressed v = sum_list (map compress_size (zf_infolist zf))"
    by blast
  from assms scan_xlsx_opened [OF ex op lp]
  have rows: "rows = py_sort_reverse uncompressed_bytes (v_rows v)"
    and tus: "total_uncompressed summ = v_total_uncompressed v"
    and tcs: "total_compressed summ = v_total_compressed v"
    by auto
  show ?thesis
    unfolding rows tus tcs sum_list_py_sort_reverse rows_v tu tc row_of_sizes
    by simp
qed

theorem totals_are_row_sums_witness:
  "scan_xlsx exact_ops demo_env ''book.xlsx'' = Inr (demo_rows, demo_summary) \<and>
   sum_list (map uncompressed_bytes demo_rows) = 11534426 \<and>
   sum_list (map compressed_bytes demo_rows) = 10485805"
  using totals_are_row_sums [OF demo_scan] demo_scan
  by (simp add: demo_summary_def)

text \<open>
  C4: for every archive that the scan accepts, the returned rows are in
  non-increasing order of uncompressed size, and for each size the rows of that
  size are the archive's members of that size, in the order of the index.
\<close>

theorem rows_sorted_stable:
  assumes "scan_xlsx fl e p = Inr (rows, summ)" and "zip_open e p = Inr zf"
  shows "sorted_wrt (\<lambda>a b. uncompressed_bytes b \<le> uncompressed_bytes a) rows \<and>
         (\<forall>k. map (\<lambda>r. (path r, uncompressed_bytes r, compressed_bytes r))
                 (filter (\<lambda>r. uncompressed_bytes r = k) rows) =
               map (\<lambda>i. (filename i, file_size i, compress_size i))
                 (filter (\<lambda>i. file_size i = k) (zf_infolist zf)))"
proof -
  from scan_xlsx_accepted [OF assms(1)] have ex: "path_exists e p" by blast
  from scan_loop_final [of fl zf] obtain v
    where lp: "scan_loop fl (zf_infolist zf) initial_vars = Inr v"
      and rows_v: "v_rows v = map (row_of fl) (zf_infolist zf)"
    by blast
  from assms(1) scan_xlsx_opened [OF ex assms(2) lp]
  have rows: "rows = py_sort_reverse uncompressed_bytes (map (row_of fl) (zf_infolist zf))"
    by (simp add: rows_v)
  have sorted: "sorted_wrt (\<lambda>a b. uncompressed_bytes b \<le> uncompressed_bytes a) rows"
    unfolding rows by (rule sorted_py_sort_reverse)
  have stable: "map (\<lambda>r. (path r, uncompressed_bytes r, compressed_bytes r))
                  (filter (\<lambda>r. uncompressed_bytes r = k) rows) =
                map (\<lambda>i. (filename i, file_size i, compress_size i))
                  (filter (\<lambda>i. file_size i = k) (zf_infolist zf))" for k
  proof -
    have "filter (\<lambda>r. uncompressed_bytes r = k) rows =
          filter (\<lambda>r. uncompressed_bytes r = k) (map (row_of fl) (zf_infolist zf))"
      unfolding rows by (rule py_sort_reverse_stable)
    also have "\<dots> = map (row_of fl) (filter (\<lambda>i. file_size i = k) (zf_infolist zf))"
      by (simp add: filter_map comp_def row_of_def)
    finally show ?thesis by (simp add: comp_def row_of_def)
  qed
  from sorted stable show ?thesis by blast
qed

theorem rows_sorted_stable_witness:
  "scan_xlsx exact_ops demo_env ''book.xlsx'' = Inr (demo_rows, demo_summary) \<and>
   zip_open demo_env ''book.xlsx'' = Inr demo_zip \<and>
   map uncompressed_bytes demo_rows = [11534336, 45, 45, 0] \<and>
   map path (filter (\<lambda>r. uncompressed_bytes r = 45) demo_rows) =
     [''xl/worksheets/sheet1.xml'', ''xl/sharedStrings.xml''] \<and>
   map filename (filter (\<lambda>i. file_size i = 45) (zf_infolist demo_zip)) =
     [''xl/worksheets/sheet1.xml'', ''xl/sharedStrings.xml'']"
proof -
  have op: "zip_open demo_env ''book.xlsx'' = Inr demo_zip"
    by (simp add: demo_env_def)
  show ?thesis
    using rows_sorted_stable [OF demo_scan op] demo_scan op
    by (simp add: demo_rows_def demo_zip_def)
qed

text \<open>
  C5: for every member, and for the grand totals, the savings percentage is
  exactly 0.0 when the uncompressed size is 0 and otherwise the rounded formula;
  the scan of an archive that opens returns, so no member raises a division
  error. Rounding the literal 0.0 gives 0.0, which is assumed of the float
  operations.
\<close>

theorem savings_zero_guarded:
  assumes "fround2 fl (fzero fl) = fzero fl"
    and "path_exists e p" and "zip_open e p = Inr zf"
  shows "\<exists>rows summ. scan_xlsx fl e p = Inr (rows, summ) \<and>
           (\<forall>r\<in>set rows.
              compression_savings_pct r =
                (if uncompressed_bytes r = 0 then fzero fl
                 else fround2 fl
                        (savings_formula fl (compressed_bytes r) (uncompressed_bytes r)))) \<and>
           overall_compression_savings_pct summ =
             (if total_uncompressed summ = 0 then fzero fl
              else fround2 fl
                     (savings_formula fl (total_compressed summ) (total_uncompressed summ)))"
proof -
  from scan_loop_final [of fl zf] obtain v
    where lp: "scan_loop fl (zf_infolist zf) initial_vars = Inr v"
      and rows_v: "v_rows v = map (row_of fl) (zf_infolist zf)"
    by blast
  have member: "compression_savings_pct r =
      (if uncompressed_bytes r = 0 then fzero fl
       else fround2 fl (savings_formula fl (compressed_bytes r) (uncompressed_bytes r)))"
    if "r \<in> set (py_sort_reverse uncompressed_bytes (v_rows v))" for r
  proof -
    from that obtain info where "r = row_of fl info"
      by (auto simp: set_py_sort_reverse rows_v)
    then show ?thesis by (simp add: row_of_def assms(1))
  qed
  show ?thesis
    unfolding scan_xlsx_opened [OF assms(2) assms(3) lp]
    using member by simp
qed

theorem savings_zero_guarded_witness:
  "fround2 exact_ops (fzero exact_ops) = fzero exact_ops \<and>
   path_exists demo_env ''book.xlsx'' \<and> zip_open demo_env ''book.xlsx'' = Inr demo_zip \<and>
   scan_xlsx exact_ops demo_env ''book.xlsx'' = Inr (demo_rows, demo_summary) \<and>
   map compression_savings_pct demo_rows = [909 / 100, 3333 / 100, 6667 / 100, 0]"
proof -
  have r0: "fround2 exact_ops (fzero exact_ops) = fzero exact_ops"
    by (simp add: exact_ops_def)
  have ex: "path_exists demo_env ''book.xlsx''"
    by (simp add: demo_env_def)
  have op: "zip_open demo_env ''book.xlsx'' = Inr demo_zip"
    by (simp add: demo_env_def)
  show ?thesis
    using savings_zero_guarded [OF r0 ex op] r0 ex op demo_scan
    by (simp add: demo_rows_def)
qed

text \<open>
  C6: for every path that does not exist, the scan fails with
  \<open>FileNotFoundError\<close>; the result is the error alone, with no rows and no
  summary.
\<close>

theorem missing_path_fails:
  "\<not> path_exists e p \<Longrightarrow> scan_xlsx fl e p = Inl (FileNotFoundError p)"
  by (simp add: scan_xlsx_def)

theorem missing_path_fails_witness:
  "\<not> path_exists demo_env ''lost.xlsx'' \<and>
   scan_xlsx exact_ops demo_env ''lost.xlsx'' = Inl (FileNotFoundError ''lost.xlsx'')"
proof -
  have nx: "\<not> path_exists demo_env ''lost.xlsx''"
    by (simp add: demo_env_def)
  show ?thesis using missing_path_fails [OF nx, of exact_ops] nx by simp
qed

text \<open>A read that raises ends the counting loop with that error.\<close>

lemma count_loop_read_fails:
  "read_fails reads \<Longrightarrow> \<exists>err. count_loop cnt buf reads = Inl err"
  by (induction cnt buf reads rule: count_loop.induct) (simp_all add: Let_def)

lemma count_shared_strings_fails:
  assumes "stream_fails (zf_open zf p)"
  shows "count_shared_strings zf p = None"
proof (cases "zf_open zf p")
  case (Inl err)
  then show ?thesis by (simp add: count_shared_strings_def)
next
  case (Inr reads)
  with assms have "read_fails reads" by (simp add: stream_fails_def)
  from count_loop_read_fails [OF this] obtain err
    where "count_loop 0 [] reads = Inl err" by blast
  with Inr show ?thesis by (simp add: count_shared_strings_def)
qed

text \<open>
  C7: the scan of an archive that opens returns its rows and its summary whatever
  happens on the shared-strings stream; when streaming that part fails the
  estimated count is absent, and when the archive has no shared-strings member
  both shared-strings fields are absent.
\<close>

theorem shared_strings_failure_recovered:
  assumes "path_exists e p" and "zip_open e p = Inr zf"
  shows "\<exists>rows summ. scan_xlsx fl e p = Inr (rows, summ) \<and>
           rows = py_sort_reverse uncompressed_bytes (map (row_of fl) (zf_infolist zf)) \<and>
           total_uncompressed summ = sum_list (map file_size (zf_infolist zf)) \<and>
           total_compressed summ = sum_list (map compress_size (zf_infolist zf)) \<and>
           (stream_fails (zf_open zf ''xl/sharedStrings.xml'') \<longrightarrow>
              sharedStrings_est_count summ = None) \<and>
           ((\<forall>i\<in>set (zf_infolist zf). filename i \<noteq> ''xl/sharedStrings.xml'') \<longrightarrow>
              sharedStrings_uncompressed summ = None \<and> sharedStrings_est_count summ = None)"
proof -
  from scan_loop_final [of fl zf] obtain v
    where lp: "scan_loop fl (zf_infolist zf) initial_vars = Inr v"
      and rows_v: "v_rows v = map (row_of fl) (zf_infolist zf)"
      and tu: "v_total_uncompressed v = sum_list (map file_size (zf_infolist zf))"
      and tc: "v_total_compressed v = sum_list (map compress_size (zf_infolist zf))"
    by blast
  have absent: "v_sharedstrings_size v = None"
    if "\<forall>i\<in>set (zf_infolist zf). filename i \<noteq> ''xl/sharedStrings.xml''"
    using scan_loop_shared_absent [OF lp that] by (simp add: initial_vars_def)
  show ?thesis
    unfolding scan_xlsx_opened [OF assms lp]
    using absent by (simp add: rows_v tu tc count_shared_strings_fails)
qed

theorem shared_strings_failure_recovered_witness:
  "stream_fails (zf_open broken_zip ''xl/sharedStrings.xml'') \<and>
   scan_xlsx exact_ops shelf_env ''broken.xlsx'' =
     Inr (demo_rows, demo_summary\<lparr>sharedStrings_est_count := None\<rparr>) \<and>
   ''xl/sharedStrings.xml'' \<notin> set (map filename (zf_infolist plain_zip)) \<and>
   (\<exists>rows summ. scan_xlsx exact_ops shelf_env ''plain.xlsx'' = Inr (rows, summ) \<and>
      length rows = 2 \<and>
      sharedStrings_uncompressed summ = None \<and> sharedStrings_est_count summ = None)"
proof -
  have ex: "path_exists shelf_env ''broken.xlsx''" "path_exists shelf_env ''plain.xlsx''"
    by (simp_all add: shelf_env_def)
  have op: "zip_open shelf_env ''broken.xlsx'' = Inr broken_zip"
    "zip_open shelf_env ''plain.xlsx'' = Inr plain_zip"
    by (simp_all add: shelf_env_def)
  have fails: "stream_fails (zf_open broken_zip ''xl/sharedStrings.xml'')"
    by (simp add: broken_zip_def stream_fails_def)
  have none: "\<forall>i\<in>set (zf_infolist plain_zip). filename i \<noteq> ''xl/sharedStrings.xml''"
    by (simp add: plain_zip_def)
  have broken: "scan_xlsx exact_ops shelf_env ''broken.xlsx'' =
      Inr (demo_rows, demo_summary\<lparr>sharedStrings_est_count := None\<rparr>)"
    by (simp add: scan_xlsx_def shelf_env_def broken_zip_def demo_zip_def exact_ops_def
        initial_vars_def scan_member_def savings_expr_def py_truediv_def py_sort_reverse_def
        count_shared_strings_def Let_def demo_rows_def demo_summary_def round_def)
  have two: "length (zf_infolist plain_zip) = 2"
    by (simp add: plain_zip_def)
  show ?thesis
    using shared_strings_failure_recovered [OF ex(1) op(1), of exact_ops]
      shared_strings_failure_recovered [OF ex(2) op(2), of exact_ops]
      fails none broken two
    by (auto simp: length_py_sort_reverse)
qed

text \<open>
  C10: the scan of a valid archive with no member succeeds, with no row, zero
  totals and counts, 0.0 overall savings and both shared-strings fields absent.
\<close>

theorem empty_archive_scans:
  assumes "path_exists e p" and "zip_open e p = Inr zf" and "zf_infolist zf = []"
  shows "scan_xlsx fl e p =
     Inr ([], \<lparr>total_uncompressed = 0, total_compressed = 0,
               overall_compression_savings_pct = fzero fl, media_count = 0,
               media_uncompressed_total = 0, worksheets_uncompressed_total = 0,
               sharedStrings_uncompressed = None, sharedStrings_est_count = None\<rparr>)"
  using assms by (simp add: scan_xlsx_def initial_vars_def py_sort_reverse_def)

theorem empty_archive_scans_witness:
  "path_exists empty_env ''empty.xlsx'' \<and> zip_open empty_env ''empty.xlsx'' = Inr empty_zip \<and>
   zf_infolist empty_zip = [] \<and>
   scan_xlsx exact_ops empty_env ''empty.xlsx'' =
     Inr ([], \<lparr>total_uncompressed = 0, total_compressed = 0,
               overall_compression_savings_pct = 0, media_count = 0,
               media_uncompressed_total = 0, worksheets_uncompressed_total = 0,
               sharedStrings_uncompressed = None, sharedStrings_est_count = None\<rparr>)"
proof -
  have ex: "path_exists empty_env ''empty.xlsx''"
    by (simp add: empty_env_def)
  have op: "zip_open empty_env ''empty.xlsx'' = Inr empty_zip"
    by (simp add: empty_env_def)
  have em: "zf_infolist empty_zip = []"
    by (simp add: empty_zip_def)
  show ?thesis
    using empty_archive_scans [OF ex op em, of exact_ops] ex op em
    by (simp add: exact_ops_def)
qed

section \<open>The marker count\<close>

text \<open>Reading a non-empty stream in chunks of \<open>n\<close> bytes, one read at a time.\<close>

lemma read_chunks_step:
  "data \<noteq> [] \<Longrightarrow> 0 < n \<Longrightarrow> read_chunks n data = take n data # read_chunks n (drop n data)"
  by (cases data; cases n) simp_all

text \<open>Leading bytes that cannot start the marker do not count.\<close>

lemma bytes_count_skip:
  "sub \<noteq> [] \<Longrightarrow> hd sub \<noteq> b \<Longrightarrow>
   bytes_count sub (replicate n b @ rest) = bytes_count sub rest"
  by (induction n) (auto simp: neq_Nil_conv)

lemma aligned_chunks:
  "read_chunks 65536 aligned_data = [replicate 65533 (CHR '' '') @ ''<si'', ''>'']"
  by (simp add: aligned_data_def read_chunks_step)

lemma aligned_markers: "bytes_count ''<si'' aligned_data = 1"
  by (simp add: aligned_data_def bytes_count_skip)

lemma aligned_count: "count_shared_strings aligned_zip ''xl/sharedStrings.xml'' = Some 2"
  by (simp add: count_shared_strings_def aligned_zip_def aligned_chunks Let_def bytes_count_skip)

text \<open>
  C2: the claim is that each occurrence of the marker is counted once wherever a
  chunk boundary falls, so that the fixture counts 3 at every split. The loop
  keeps the last three bytes of the buffer, a whole marker when the chunk ends
  with one, and counts that marker again with the next chunk: the fixture holds
  3 markers and counts 4 when cut at offset 3 or 7, and 3 at the other offsets;
  a part read in 64 KiB chunks whose single marker ends at the first boundary
  counts 2.
\<close>

theorem marker_counted_twice:
  "bytes_count ''<si'' fixture = 3 \<and>
   map (\<lambda>k. count_loop 0 [] (split_at k fixture)) [1, 2, 3, 4, 5, 6, 7, 8, 9, 10, 11] =
     map Inr [3, 3, 4, 3, 3, 3, 4, 3, 3, 3, 3] \<and>
   bytes_count ''<si'' aligned_data = 1 \<and>
   count_shared_strings aligned_zip ''xl/sharedStrings.xml'' = Some 2"
  using aligned_markers aligned_count
  by (simp add: fixture_def split_at_def)

end
